theory Spec2Isabelle
  imports Main "HOL-Library.Word"
begin

section \<open>alfred: a line-oriented TCP front end to SQLite\<close>

text \<open>
  The development embeds the server of the complete source file (the one that defines
  \<^verbatim>\<open>transmit\<close>, \<^verbatim>\<open>callback\<close> and the prompt), function by function.
  The file \<^verbatim>\<open>main.c\<close> is an earlier skeleton of the same program in which
  \<^verbatim>\<open>transmit\<close> and \<^verbatim>\<open>callback\<close> have empty bodies; nothing is observable there.

  Conventions of the embedding:
  \<^item> a \<^verbatim>\<open>char *\<close> that holds a C string is modelled by its contents, the bytes before
    the terminating NUL; a raw byte buffer is a \<open>string\<close> with its length;
  \<^item> \<^verbatim>\<open>uint32_t\<close> is \<open>32 word\<close>, \<^verbatim>\<open>uintptr_t\<close> is \<open>64 word\<close>, and
    \<^verbatim>\<open>int\<close> has 32 bits;
  \<^item> every call that reaches the outside world (\<^verbatim>\<open>accept\<close>, \<^verbatim>\<open>write\<close>,
    \<^verbatim>\<open>printf\<close> under \<^verbatim>\<open>verbose\<close>, \<^verbatim>\<open>sqlite3_exec\<close>, \<^verbatim>\<open>sqlite3_free\<close>,
    \<^verbatim>\<open>close\<close>) appends one event to a trace, in program order;
  \<^item> what the outside world answers is a parameter: what each \<^verbatim>\<open>write\<close> does (from
    the history so far and the bytes), and the query engine (from the database and the
    query text to the rows, the error text and the new database);
  \<^item> the bytes a connection delivers are the list of the results of the successive
    \<^verbatim>\<open>read\<close> calls; the end of the list, or an empty result, is a \<^verbatim>\<open>read\<close> that
    returns zero or less;
  \<^item> two calls can end the process instead of returning: a \<^verbatim>\<open>write\<close> to a peer that
    has closed the connection raises SIGPIPE, which \<^verbatim>\<open>main\<close> leaves at its default
    disposition, and \<^verbatim>\<open>xrealloc\<close> exits when the size of the frame buffer no longer
    fits its \<^verbatim>\<open>int\<close> counter. Each is recorded as a fatal event, and the run of the
    process is the trace up to its first fatal event (\<open>process_trace\<close>). The functions
    follow the program text statement by statement; what they yield after a fatal event
    describes no execution: after SIGPIPE it is what the text does when the signal is
    ignored, and after the exit the read loop is left at once;
  \<^item> an allocation whose size is computed without overflow succeeds, no other signal
    arrives, and the two diagnostics that print socket addresses are left out of the trace.
\<close>

subsection \<open>Bytes, C strings and \<^verbatim>\<open>printf\<close> conversions\<close>

type_synonym u32 = "32 word"
type_synonym uintptr = "64 word"

definition NUL :: char where
  "NUL = CHR 0x00"

definition newline :: char where
  "newline = CHR 0x0A"

text \<open>\<^verbatim>\<open>#define BUFFER_SIZE 128\<close>: no \<^verbatim>\<open>read\<close> returns more bytes than this.\<close>

definition BUFFER_SIZE :: nat where
  "BUFFER_SIZE = 128"

text \<open>The largest value of the \<^verbatim>\<open>int\<close> that counts the bytes of the frame buffer.\<close>

definition INT_MAX :: nat where
  "INT_MAX = 2147483647"

text \<open>The string a byte buffer denotes when it is read as a C string.\<close>

definition c_str :: "string \<Rightarrow> string" where
  "c_str bytes = takeWhile (\<lambda>c. c \<noteq> NUL) bytes"

text \<open>
  \<^verbatim>\<open>strncpy(dest, src, n)\<close>: the \<open>n\<close> bytes stored at \<open>dest\<close>. Copying stops at the
  first NUL of the source and the rest is filled with NUL.
\<close>

definition strncpy :: "string \<Rightarrow> nat \<Rightarrow> string" where
  "strncpy src n = (let s = c_str (take n src) in s @ replicate (n - length s) NUL)"

definition digit_char :: "nat \<Rightarrow> char" where
  "digit_char d = ''0123456789'' ! d"

fun decimal :: "nat \<Rightarrow> string" where
  "decimal n = (if n < 10 then [digit_char n] else decimal (n div 10) @ [digit_char (n mod 10)])"

declare decimal.simps [simp del]

text \<open>\<^verbatim>\<open>%u\<close> on a \<^verbatim>\<open>uint32_t\<close> and \<^verbatim>\<open>%d\<close> on an \<^verbatim>\<open>int\<close>.\<close>

definition fmt_u :: "u32 \<Rightarrow> string" where
  "fmt_u w = decimal (unat w)"

definition fmt_d :: "int \<Rightarrow> string" where
  "fmt_d i = (if i < 0 then CHR ''-'' # decimal (nat (- i)) else decimal (nat i))"

subsection \<open>Responses, events, configuration and state\<close>

datatype response = OK | ERR | DATA

fun response_value :: "response \<Rightarrow> int" where
  "response_value OK = 0"
| "response_value ERR = - 1"
| "response_value DATA = 1"

datatype event =
    Accept
  | Write string int
  | Print string
  | Exec string
  | Free string
  | Close
  | Sigpipe
  | Die string

text \<open>The two fatal events: the signal that ends the process during a \<^verbatim>\<open>write\<close>, and
  \<^verbatim>\<open>DIE\<close> (a line on standard error, then \<^verbatim>\<open>exit(1)\<close>).\<close>

fun fatal :: "event \<Rightarrow> bool" where
  "fatal Sigpipe = True"
| "fatal (Die text) = True"
| "fatal e = False"

text \<open>The run of the process: the trace up to and with its first fatal event.\<close>

fun process_trace :: "event list \<Rightarrow> event list" where
  "process_trace [] = []"
| "process_trace (e # es) = (if fatal e then [e] else e # process_trace es)"

text \<open>What a \<^verbatim>\<open>write\<close> on the socket does: it returns a count or -1, or, when the peer
  has closed the connection, it raises SIGPIPE.\<close>

datatype outcome = Returns int | Raises_SIGPIPE

text \<open>One result row: the pairs \<open>(column[i], argv[i])\<close> for \<open>i < argc\<close>; a null
  \<open>argv[i]\<close> is \<open>None\<close>.\<close>

type_synonym row = "(string \<times> string option) list"

record 'db environ =
  verbose :: bool
  prompt :: bool
  write_outcome :: "event list \<Rightarrow> string \<Rightarrow> outcome"
  engine :: "'db \<Rightarrow> string \<Rightarrow> row list \<times> string option \<times> 'db"

record 'db state =
  req :: u32
  db :: 'db
  trace :: "event list"

definition initial :: "'db \<Rightarrow> 'db state" where
  "initial d = \<lparr>req = 0, db = d, trace = []\<rparr>"

subsection \<open>Writing to the client\<close>

text \<open>\<^verbatim>\<open>write(read_sockfd, bytes, length)\<close>. When the call raises SIGPIPE the process ends
  there; the value -1 is what the call returns when the signal is ignored.\<close>

definition sock_write :: "'db environ \<Rightarrow> string \<Rightarrow> 'db state \<Rightarrow> int \<times> 'db state" where
  "sock_write cx bytes st =
     (case write_outcome cx (trace st) bytes of
        Returns n \<Rightarrow> (n, st\<lparr>trace := trace st @ [Write bytes n]\<rparr>)
      | Raises_SIGPIPE \<Rightarrow> (- 1, st\<lparr>trace := trace st @ [Write bytes (- 1), Sigpipe]\<rparr>))"

definition dprintf :: "'db environ \<Rightarrow> string \<Rightarrow> 'db state \<Rightarrow> 'db state" where
  "dprintf cx text st = (if verbose cx then st\<lparr>trace := trace st @ [Print text]\<rparr> else st)"

definition SEND_PROMPT :: "'db environ \<Rightarrow> 'db state \<Rightarrow> 'db state" where
  "SEND_PROMPT cx st = (if prompt cx then snd (sock_write cx ''> '' st) else st)"

text \<open>The size passed to \<^verbatim>\<open>xrealloc\<close> in \<^verbatim>\<open>transmit\<close>, term by term.\<close>

definition message_alloc :: "string \<Rightarrow> nat" where
  "message_alloc data = 10 + length '': '' + 2 + length '': '' + length data + 2"

text \<open>\<^verbatim>\<open>sprintf(msg, "%u: %d: %s\n", req, code, data)\<close>: the characters stored before
  the terminating NUL.\<close>

definition sprintf_message :: "u32 \<Rightarrow> response \<Rightarrow> string \<Rightarrow> string" where
  "sprintf_message r code data =
     fmt_u r @ '': '' @ fmt_d (response_value code) @ '': '' @ data @ [newline]"

definition transmit :: "'db environ \<Rightarrow> u32 \<Rightarrow> response \<Rightarrow> string \<Rightarrow> 'db state \<Rightarrow> int \<times> 'db state" where
  "transmit cx r code data st =
     (let msg = sprintf_message r code data;
          (n, st1) = sock_write cx msg st;
          st2 = (if n < 0 then dprintf cx (''Error writing to socket.'' @ [newline]) st1 else st1)
      in (n, st2))"

text \<open>\<^verbatim>\<open>sprintf(data, "%s = %s", column[i], argv[i] ? argv[i] : "NULL")\<close>.\<close>

definition sprintf_column :: "string \<Rightarrow> string option \<Rightarrow> string" where
  "sprintf_column column argv = column @ '' = '' @ (case argv of Some v \<Rightarrow> v | None \<Rightarrow> ''NULL'')"

text \<open>The row callback: one \<^verbatim>\<open>transmit\<close> per column, in the order of the columns.
  It always returns 0, so the engine never stops early because of it.\<close>

fun callback :: "'db environ \<Rightarrow> uintptr \<Rightarrow> row \<Rightarrow> 'db state \<Rightarrow> 'db state" where
  "callback cx reqp [] st = st"
| "callback cx reqp ((column, argv) # cols) st =
     (let data = sprintf_column column argv
      in callback cx reqp cols (snd (transmit cx (ucast reqp) DATA data st)))"

subsection \<open>Executing one request\<close>

text \<open>\<^verbatim>\<open>sqlite3_exec(db, sql, &callback, arg, &err)\<close>: the engine produces its rows, each
  handed to the callback at once, and reports success (\<open>None\<close>) or an error text.\<close>

definition sqlite3_exec :: "'db environ \<Rightarrow> string \<Rightarrow> uintptr \<Rightarrow> 'db state \<Rightarrow> string option \<times> 'db state" where
  "sqlite3_exec cx sql arg st =
     (case engine cx (db st) sql of
        (rows, err, db') \<Rightarrow>
          (err, (fold (callback cx arg) rows (st\<lparr>trace := trace st @ [Exec sql]\<rparr>))\<lparr>db := db'\<rparr>))"

text \<open>The part of the read loop of \<^verbatim>\<open>main\<close> that runs once the buffer ends with a
  newline: terminate the buffer, log, pre-increment \<^verbatim>\<open>req\<close>, execute, send the terminal
  message, send the prompt.\<close>

definition dispatch :: "'db environ \<Rightarrow> string \<Rightarrow> 'db state \<Rightarrow> 'db state" where
  "dispatch cx offload_buffer st =
     (let sql = c_str offload_buffer;
          st1 = dprintf cx (''Received '' @ fmt_d (int (length offload_buffer))
                              @ '' character(s): '' @ sql) st;
          st2 = st1\<lparr>req := req st1 + 1\<rparr>;
          (err, st3) = sqlite3_exec cx sql (ucast (req st2)) st2;
          st4 = (case err of
                   Some e \<Rightarrow>
                     (let s1 = dprintf cx (''Failed to execute query '' @ decimal (unat (req st3))
                                             @ '': '' @ e @ [newline]) st3;
                          s2 = snd (transmit cx (req s1) ERR e s1)
                      in s2\<lparr>trace := trace s2 @ [Free e]\<rparr>)
                 | None \<Rightarrow> snd (transmit cx (req st3) OK [] st3))
      in SEND_PROMPT cx st4)"

subsection \<open>The read loop, one connection, the event loop\<close>

text \<open>\<^verbatim>\<open>xrealloc\<close> on the frame buffer, where it cannot succeed: the size is an
  \<^verbatim>\<open>int\<close> sum, and a sum beyond \<open>INT_MAX\<close> does not denote the size wanted (it is
  undefined in C and negative on the usual machines, a size no allocation can have).\<close>

definition out_of_memory :: "'db state \<Rightarrow> 'db state" where
  "out_of_memory st = st\<lparr>trace := trace st @ [Die (''Out of memory.'' @ [newline])]\<rparr>"

text \<open>The \<^verbatim>\<open>while ((sz = read(...)) > 0)\<close> loop. The accumulator is the pair of
  \<^verbatim>\<open>offload_buffer\<close> and \<^verbatim>\<open>offload_buffer_sz\<close>, as the bytes in use; the two sizes
  handed to \<^verbatim>\<open>xrealloc\<close> are \<^verbatim>\<open>offload_buffer_sz + sz\<close> and, for the terminating
  NUL, \<^verbatim>\<open>offload_buffer_sz + 1\<close>.\<close>

fun read_loop :: "'db environ \<Rightarrow> string list \<Rightarrow> string \<Rightarrow> 'db state \<Rightarrow> string \<times> 'db state" where
  "read_loop cx [] buf st = (buf, st)"
| "read_loop cx (chunk # chunks) buf st =
     (if 0 < length chunk then
        if INT_MAX < length buf + length chunk then (buf, out_of_memory st)
        else
          (let buf1 = buf @ strncpy chunk (length chunk)
           in if last buf1 \<noteq> newline then read_loop cx chunks buf1 st
              else if INT_MAX < length buf1 + 1 then (buf1, out_of_memory st)
              else read_loop cx chunks [] (dispatch cx buf1 st))
      else (buf, st))"

text \<open>One iteration of the outer \<^verbatim>\<open>do ... while (1)\<close>: accept, reset the accumulator,
  prompt, read until the client is gone, close.\<close>

definition serve_connection :: "'db environ \<Rightarrow> string list \<Rightarrow> 'db state \<Rightarrow> 'db state" where
  "serve_connection cx chunks st =
     (let st1 = st\<lparr>trace := trace st @ [Accept]\<rparr>;
          st2 = SEND_PROMPT cx st1;
          (buf, st3) = read_loop cx chunks [] st2;
          st4 = dprintf cx (''Client disconnected.'' @ [newline]) st3
      in st4\<lparr>trace := trace st4 @ [Close]\<rparr>)"

fun event_loop :: "'db environ \<Rightarrow> string list list \<Rightarrow> 'db state \<Rightarrow> 'db state" where
  "event_loop cx [] st = st"
| "event_loop cx (conn # conns) st = event_loop cx conns (serve_connection cx conn st)"

section \<open>Views of a run\<close>

subsection \<open>The protocol view of a trace\<close>

text \<open>What the program text does towards the client and the engine, without the values
  the \<^verbatim>\<open>write\<close> calls returned, without the diagnostics on standard output and without
  the marks of the fatal events.\<close>

datatype action = Accepted | Sent string | Ran string | Freed string | Closed

fun actions :: "event list \<Rightarrow> action list" where
  "actions [] = []"
| "actions (Accept # es) = Accepted # actions es"
| "actions (Write bytes n # es) = Sent bytes # actions es"
| "actions (Print text # es) = actions es"
| "actions (Exec sql # es) = Ran sql # actions es"
| "actions (Free e # es) = Freed e # actions es"
| "actions (Close # es) = Closed # actions es"
| "actions (Sigpipe # es) = actions es"
| "actions (Die text # es) = actions es"

text \<open>The buffers that a read loop hands over for execution, in order: the accumulator
  after each read that leaves it ending with a newline. This is \<open>read_loop\<close> with the
  execution taken out.\<close>

fun frames :: "string list \<Rightarrow> string \<Rightarrow> string list" where
  "frames [] buf = []"
| "frames (chunk # chunks) buf =
     (if 0 < length chunk then
        if INT_MAX < length buf + length chunk then []
        else
          (let buf1 = buf @ strncpy chunk (length chunk)
           in if last buf1 \<noteq> newline then frames chunks buf1
              else if INT_MAX < length buf1 + 1 then []
              else buf1 # frames chunks [])
      else [])"

text \<open>Whether a read loop ends in the exit of \<^verbatim>\<open>xrealloc\<close> and not in a
  \<^verbatim>\<open>read\<close> that returns zero or less.\<close>

fun overflows :: "string list \<Rightarrow> string \<Rightarrow> bool" where
  "overflows [] buf = False"
| "overflows (chunk # chunks) buf =
     (if 0 < length chunk then
        if INT_MAX < length buf + length chunk then True
        else
          (let buf1 = buf @ strncpy chunk (length chunk)
           in if last buf1 \<noteq> newline then overflows chunks buf1
              else if INT_MAX < length buf1 + 1 then True
              else overflows chunks [])
      else False)"

text \<open>A request as a client means it: a non-empty text without NUL whose only newline is
  its last byte.\<close>

definition request_line :: "string \<Rightarrow> bool" where
  "request_line r = (r \<noteq> [] \<and> last r = newline \<and> newline \<notin> set (butlast r) \<and> NUL \<notin> set r)"

text \<open>The messages of one request: a DATA message for every column of every row, then
  the terminal message (and the release of the error text), then the prompt.\<close>

definition data_messages :: "u32 \<Rightarrow> row list \<Rightarrow> action list" where
  "data_messages r rows =
     concat (map (map (\<lambda>(column, argv). Sent (sprintf_message r DATA (sprintf_column column argv)))) rows)"

definition request_actions :: "bool \<Rightarrow> u32 \<Rightarrow> string \<Rightarrow> row list \<times> string option \<times> 'db \<Rightarrow> action list" where
  "request_actions p r sql result =
     (case result of
        (rows, err, d) \<Rightarrow>
          Ran sql # data_messages r rows
          @ (case err of
               None \<Rightarrow> [Sent (sprintf_message r OK [])]
             | Some e \<Rightarrow> [Sent (sprintf_message r ERR e), Freed e])
          @ (if p then [Sent ''> ''] else []))"

text \<open>Reading a message off the wire: the text before the first colon, and the text
  between the first and the second colon (after the space).\<close>

definition id_field :: "string \<Rightarrow> string" where
  "id_field m = takeWhile (\<lambda>c. c \<noteq> CHR '':'') m"

definition code_field :: "string \<Rightarrow> string" where
  "code_field m = takeWhile (\<lambda>c. c \<noteq> CHR '':'') (drop 2 (dropWhile (\<lambda>c. c \<noteq> CHR '':'') m))"

definition is_terminal :: "string \<Rightarrow> bool" where
  "is_terminal m = (code_field m = ''0'' \<or> code_field m = ''-1'')"

text \<open>The course of the requests: each execution and each terminal message with the ID
  it carries.\<close>

datatype mark = Executed string | Terminated string

fun served :: "action list \<Rightarrow> mark list" where
  "served [] = []"
| "served (Ran sql # as) = Executed sql # served as"
| "served (Sent m # as) = (if is_terminal m then Terminated (id_field m) # served as else served as)"
| "served (a # as) = served as"

text \<open>The IDs of the terminal messages, in order.\<close>

fun terminal_ids :: "mark list \<Rightarrow> string list" where
  "terminal_ids [] = []"
| "terminal_ids (Terminated i # ms) = i # terminal_ids ms"
| "terminal_ids (Executed sql # ms) = terminal_ids ms"

text \<open>The course of the prompts: connections, prompts and terminal messages.\<close>

datatype pmark = Connected | Prompted | Terminal | Disconnected

fun prompting :: "action list \<Rightarrow> pmark list" where
  "prompting [] = []"
| "prompting (Accepted # as) = Connected # prompting as"
| "prompting (Closed # as) = Disconnected # prompting as"
| "prompting (Sent m # as) =
     (if m = ''> '' then Prompted # prompting as
      else if is_terminal m then Terminal # prompting as
      else prompting as)"
| "prompting (a # as) = prompting as"

text \<open>A small engine and environment for the concrete runs: the query \<open>bad\<close> fails,
  every other query yields one row of two columns and counts up the database; writing
  the prompt fails, every other write succeeds.\<close>

definition demo_engine :: "nat \<Rightarrow> string \<Rightarrow> row list \<times> string option \<times> nat" where
  "demo_engine d sql =
     (if sql = ''bad\<newline>'' then ([], Some ''syntax error'', d)
      else ([[(''n'', Some (decimal d)), (''x'', None)]], None, Suc d))"

definition demo :: "nat environ" where
  "demo = \<lparr>verbose = True, prompt = True,
            write_outcome =
              (\<lambda>history bytes. if bytes = ''> '' then Returns (- 1) else Returns (int (length bytes))),
            engine = demo_engine\<rparr>"

text \<open>The same engine, without the prompt, when every write fails: with a peer that has
  closed the connection, and with an error that \<^verbatim>\<open>write\<close> returns.\<close>

definition hangup :: "nat environ" where
  "hangup = \<lparr>verbose = True, prompt = False,
              write_outcome = (\<lambda>history bytes. Raises_SIGPIPE),
              engine = demo_engine\<rparr>"

definition failing :: "nat environ" where
  "failing = \<lparr>verbose = True, prompt = False,
               write_outcome = (\<lambda>history bytes. Returns (- 1)),
               engine = demo_engine\<rparr>"

section \<open>Lemmas\<close>

subsection \<open>Decimal rendering\<close>

lemma decimal_length_le:
  "0 < k \<Longrightarrow> n < 10 ^ k \<Longrightarrow> length (decimal n) \<le> k"
proof (induction n arbitrary: k rule: decimal.induct)
  case (1 n)
  show ?case
  proof (cases "n < 10")
    case True
    with "1.prems" show ?thesis
      by (simp add: decimal.simps [of n])
  next
    case False
    with "1.prems" have k2: "1 < k"
      by (cases "k = 1") auto
    then obtain j where j: "k = Suc j" "0 < j"
      by (cases k) auto
    from "1.prems" j have "n div 10 < 10 ^ j"
      by (simp add: less_mult_imp_div_less mult.commute)
    with "1.IH" [OF False j(2)] have "length (decimal (n div 10)) \<le> j" .
    with False j show ?thesis
      by (simp add: decimal.simps [of n])
  qed
qed

lemma fmt_u_length: "length (fmt_u r) \<le> 10"
proof -
  have "unat r < 2 ^ 32"
    using unsigned_less [of r, where ?'a = nat] by simp
  then have "unat r < 10 ^ 10"
    by simp
  then show ?thesis
    unfolding fmt_u_def by (intro decimal_length_le) simp_all
qed

lemma fmt_d_response:
  "fmt_d (response_value code) = (case code of OK \<Rightarrow> ''0'' | ERR \<Rightarrow> ''-1'' | DATA \<Rightarrow> ''1'')"
  by (cases code) (simp_all add: fmt_d_def decimal.simps digit_char_def)


subsection \<open>Effects of the single operations\<close>

lemma actions_append [simp]: "actions (xs @ ys) = actions xs @ actions ys"
  by (induction xs rule: actions.induct) simp_all

lemma sock_write_actions:
  "actions (trace (snd (sock_write cx bytes st))) = actions (trace st) @ [Sent bytes]"
  by (simp add: sock_write_def split: outcome.splits)

lemma sock_write_frame [simp]:
  "req (snd (sock_write cx bytes st)) = req st" "db (snd (sock_write cx bytes st)) = db st"
  by (simp_all add: sock_write_def split: outcome.splits)

lemma dprintf_frame [simp]:
  "req (dprintf cx text st) = req st" "db (dprintf cx text st) = db st"
  "actions (trace (dprintf cx text st)) = actions (trace st)"
  by (simp_all add: dprintf_def)

lemma SEND_PROMPT_frame [simp]:
  "req (SEND_PROMPT cx st) = req st" "db (SEND_PROMPT cx st) = db st"
  by (simp_all add: SEND_PROMPT_def)

lemma SEND_PROMPT_actions:
  "actions (trace (SEND_PROMPT cx st)) = actions (trace st) @ (if prompt cx then [Sent ''> ''] else [])"
  by (simp add: SEND_PROMPT_def sock_write_actions)

lemma transmit_frame [simp]:
  "req (snd (transmit cx r code data st)) = req st" "db (snd (transmit cx r code data st)) = db st"
  by (simp_all add: transmit_def Let_def split_beta)

lemma transmit_actions:
  "actions (trace (snd (transmit cx r code data st))) =
     actions (trace st) @ [Sent (sprintf_message r code data)]"
  by (simp add: transmit_def Let_def split_beta sock_write_actions)

lemma ucast_req [simp]: "(ucast (ucast (r :: u32) :: uintptr) :: u32) = r"
  by (simp add: ucast_up_ucast_id is_up)

lemma callback_frame [simp]:
  "req (callback cx p row st) = req st" "db (callback cx p row st) = db st"
  by (induction cx p row st rule: callback.induct) (simp_all add: Let_def)

lemma callback_actions:
  "actions (trace (callback cx p row st)) =
     actions (trace st)
     @ map (\<lambda>(column, argv). Sent (sprintf_message (ucast p) DATA (sprintf_column column argv))) row"
  by (induction cx p row st rule: callback.induct) (simp_all add: Let_def transmit_actions)

lemma fold_callback_frame [simp]:
  "req (fold (callback cx p) rows st) = req st" "db (fold (callback cx p) rows st) = db st"
  by (induction rows arbitrary: st) simp_all

lemma fold_callback_actions:
  "actions (trace (fold (callback cx p) rows st)) = actions (trace st) @ data_messages (ucast p) rows"
  by (induction rows arbitrary: st) (simp_all add: data_messages_def callback_actions)

lemma sqlite3_exec_result:
  "fst (sqlite3_exec cx sql arg st) = fst (snd (engine cx (db st) sql))"
  "req (snd (sqlite3_exec cx sql arg st)) = req st"
  "db (snd (sqlite3_exec cx sql arg st)) = snd (snd (engine cx (db st) sql))"
  by (simp_all add: sqlite3_exec_def split: prod.splits)

lemma sqlite3_exec_actions:
  "actions (trace (snd (sqlite3_exec cx sql arg st))) =
     actions (trace st) @ Ran sql # data_messages (ucast arg) (fst (engine cx (db st) sql))"
  by (simp add: sqlite3_exec_def fold_callback_actions split: prod.splits)


lemma dispatch_unfold:
  "dispatch cx buf st =
     (let st2 = (dprintf cx (''Received '' @ fmt_d (int (length buf)) @ '' character(s): '' @ c_str buf) st)
                  \<lparr>req := req st + 1\<rparr>;
          x = sqlite3_exec cx (c_str buf) (ucast (req st + 1)) st2
      in SEND_PROMPT cx
           (case fst x of
              Some e \<Rightarrow>
                (snd (transmit cx (req st + 1) ERR e
                   (dprintf cx (''Failed to execute query '' @ decimal (unat (req st + 1)) @ '': '' @ e @ [newline]) (snd x))))
                \<lparr>trace := trace (snd (transmit cx (req st + 1) ERR e
                   (dprintf cx (''Failed to execute query '' @ decimal (unat (req st + 1)) @ '': '' @ e @ [newline]) (snd x)))) @ [Free e]\<rparr>
            | None \<Rightarrow> snd (transmit cx (req st + 1) OK [] (snd x))))"
  by (simp add: dispatch_def Let_def split_beta sqlite3_exec_result cong: option.case_cong)

lemma dispatch_req [simp]: "req (dispatch cx buf st) = req st + 1"
  by (simp add: dispatch_unfold Let_def sqlite3_exec_result split: option.splits)

lemma dispatch_db [simp]: "db (dispatch cx buf st) = snd (snd (engine cx (db st) (c_str buf)))"
  by (simp add: dispatch_unfold Let_def sqlite3_exec_result split: option.splits)

lemma dispatch_actions:
  "actions (trace (dispatch cx buf st)) =
     actions (trace st) @ request_actions (prompt cx) (req st + 1) (c_str buf) (engine cx (db st) (c_str buf))"
  by (simp add: dispatch_unfold Let_def sqlite3_exec_result sqlite3_exec_actions SEND_PROMPT_actions
      transmit_actions request_actions_def split: option.splits prod.splits)

subsection \<open>Reading the fields of a message\<close>

lemma digit_char_cases:
  "d < 10 \<Longrightarrow> digit_char d \<in> set ''0123456789''"
  unfolding digit_char_def by (rule nth_mem) simp

lemma decimal_chars: "set (decimal n) \<subseteq> set ''0123456789''"
proof (induction n rule: decimal.induct)
  case (1 n)
  show ?case
  proof (cases "n < 10")
    case True
    then show ?thesis
      using digit_char_cases [of n] by (simp add: decimal.simps [of n])
  next
    case False
    have "n mod 10 < 10" by simp
    from digit_char_cases [OF this] "1.IH" [OF False] False show ?thesis
      by (simp add: decimal.simps [of n])
  qed
qed

lemma decimal_no_colon: "x \<in> set (decimal n) \<Longrightarrow> x \<noteq> CHR '':''"
  using decimal_chars [of n] by auto

lemma fmt_d_values [simp]: "fmt_d 0 = ''0''" "fmt_d (- 1) = ''-1''" "fmt_d 1 = ''1''"
  by (simp_all add: fmt_d_def decimal.simps digit_char_def)

lemma decimal_not_Nil: "decimal n \<noteq> []"
  by (simp add: decimal.simps [of n])

lemma id_field_message [simp]: "id_field (sprintf_message r code data) = fmt_u r"
  by (simp add: id_field_def sprintf_message_def fmt_u_def takeWhile_append2 decimal_no_colon)

lemma code_field_message [simp]:
  "code_field (sprintf_message r code data) = fmt_d (response_value code)"
proof -
  have "dropWhile (\<lambda>c. c \<noteq> CHR '':'') (sprintf_message r code data)
          = '': '' @ fmt_d (response_value code) @ '': '' @ data @ [newline]"
    by (simp add: sprintf_message_def fmt_u_def decimal_no_colon)
  then show ?thesis
    by (cases code) (simp_all add: code_field_def)
qed

lemma is_terminal_message [simp]:
  "is_terminal (sprintf_message r code data) = (code \<noteq> DATA)"
  by (cases code) (simp_all add: is_terminal_def)

lemma prompt_not_terminal [simp]: "\<not> is_terminal ''> ''"
  by (simp add: is_terminal_def code_field_def)

lemma message_not_prompt [simp]: "sprintf_message r code data \<noteq> ''> ''"
proof
  assume "sprintf_message r code data = ''> ''"
  then have "last (sprintf_message r code data) = last ''> ''" by simp
  then show False by (simp add: sprintf_message_def newline_def)
qed

subsection \<open>The views on the messages of a request\<close>

lemma served_append [simp]: "served (xs @ ys) = served xs @ served ys"
  by (induction xs rule: served.induct) simp_all

lemma prompting_append [simp]: "prompting (xs @ ys) = prompting xs @ prompting ys"
  by (induction xs rule: prompting.induct) simp_all

lemma served_data_messages [simp]: "served (data_messages r rows) = []"
proof -
  have row: "served (map (\<lambda>(column, argv). Sent (sprintf_message r DATA (sprintf_column column argv))) row) = []"
    for row :: row
    by (induction row) (simp_all add: split_beta)
  show ?thesis
    unfolding data_messages_def by (induction rows) (simp_all add: row)
qed

lemma prompting_data_messages [simp]: "prompting (data_messages r rows) = []"
proof -
  have row: "prompting (map (\<lambda>(column, argv). Sent (sprintf_message r DATA (sprintf_column column argv))) row) = []"
    for row :: row
    by (induction row) (simp_all add: split_beta)
  show ?thesis
    unfolding data_messages_def by (induction rows) (simp_all add: row)
qed

lemma served_request_actions [simp]:
  "served (request_actions p r sql result) = [Executed sql, Terminated (fmt_u r)]"
  by (simp add: request_actions_def split: prod.splits option.splits)

lemma prompting_request_actions [simp]:
  "prompting (request_actions p r sql result) = Terminal # (if p then [Prompted] else [])"
  by (simp add: request_actions_def split: prod.splits option.splits)

subsection \<open>The loops\<close>

lemma read_loop_frames:
  "snd (read_loop cx chunks buf st) =
     (if overflows chunks buf then out_of_memory (fold (dispatch cx) (frames chunks buf) st)
      else fold (dispatch cx) (frames chunks buf) st)"
  by (induction cx chunks buf st rule: read_loop.induct) (simp_all add: Let_def)

lemma out_of_memory_frame [simp]:
  "req (out_of_memory st) = req st" "db (out_of_memory st) = db st"
  "actions (trace (out_of_memory st)) = actions (trace st)"
  by (simp_all add: out_of_memory_def)

lemma read_loop_frame [simp]:
  "req (snd (read_loop cx chunks buf st)) = req (fold (dispatch cx) (frames chunks buf) st)"
  "db (snd (read_loop cx chunks buf st)) = db (fold (dispatch cx) (frames chunks buf) st)"
  "actions (trace (snd (read_loop cx chunks buf st))) =
     actions (trace (fold (dispatch cx) (frames chunks buf) st))"
  by (simp_all add: read_loop_frames)

lemma fold_dispatch_req [simp]:
  "req (fold (dispatch cx) fs st) = req st + of_nat (length fs)"
  by (induction fs arbitrary: st) simp_all

lemma serve_connection_unfold:
  "serve_connection cx chunks st =
     (dprintf cx (''Client disconnected.'' @ [newline])
        (snd (read_loop cx chunks [] (SEND_PROMPT cx (st\<lparr>trace := trace st @ [Accept]\<rparr>)))))
     \<lparr>trace := trace (dprintf cx (''Client disconnected.'' @ [newline])
        (snd (read_loop cx chunks [] (SEND_PROMPT cx (st\<lparr>trace := trace st @ [Accept]\<rparr>))))) @ [Close]\<rparr>"
  by (simp add: serve_connection_def Let_def split_beta)

lemma serve_connection_req [simp]:
  "req (serve_connection cx chunks st) = req st + of_nat (length (frames chunks []))"
  by (simp add: serve_connection_unfold)

lemma event_loop_req:
  "req (event_loop cx conns st) = req st + of_nat (length (concat (map (\<lambda>chunks. frames chunks []) conns)))"
  by (induction conns arbitrary: st) simp_all

subsection \<open>Frames and requests\<close>

lemma c_str_id: "NUL \<notin> set s \<Longrightarrow> c_str s = s"
  by (auto simp: c_str_def)

lemma strncpy_id: "NUL \<notin> set s \<Longrightarrow> strncpy s (length s) = s"
  by (simp add: strncpy_def c_str_id)

lemma strncpy_length [simp]: "length (strncpy s n) = n"
proof -
  have "length (c_str (take n s)) \<le> n"
    unfolding c_str_def
    by (metis length_take length_takeWhile_le min.cobounded2 order_trans)
  then show ?thesis
    by (simp add: strncpy_def Let_def)
qed

lemma strncpy_not_Nil: "chunk \<noteq> [] \<Longrightarrow> strncpy chunk (length chunk) \<noteq> []"
  using strncpy_length [of chunk "length chunk"] by (metis length_0_conv)

lemma fold_dispatch_served:
  "req st + 1 = r0 + of_nat n \<Longrightarrow>
   served (actions (trace (fold (dispatch cx) fs st))) =
     served (actions (trace st))
     @ concat (map (\<lambda>(k, f). [Executed (c_str f), Terminated (fmt_u (r0 + of_nat k))]) (enumerate n fs))"
proof (induction fs arbitrary: st n)
  case Nil
  then show ?case by simp
next
  case (Cons f fs)
  have "req (dispatch cx f st) + 1 = r0 + of_nat (Suc n)"
    using Cons.prems by simp
  from Cons.IH [OF this] Cons.prems show ?case
    by (simp add: dispatch_actions)
qed

lemma serve_connection_actions:
  "actions (trace (serve_connection cx chunks st)) =
     actions (trace (fold (dispatch cx) (frames chunks []) (SEND_PROMPT cx (st\<lparr>trace := trace st @ [Accept]\<rparr>))))
     @ [Closed]"
  by (simp add: serve_connection_unfold)

lemma serve_connection_served:
  "served (actions (trace (serve_connection cx chunks st))) =
     served (actions (trace st))
     @ concat (map (\<lambda>(k, f). [Executed (c_str f), Terminated (fmt_u (req st + of_nat k))])
         (enumerate 1 (frames chunks [])))"
proof -
  let ?s = "SEND_PROMPT cx (st\<lparr>trace := trace st @ [Accept]\<rparr>)"
  have "req ?s + 1 = req st + of_nat 1" by simp
  from fold_dispatch_served [OF this] show ?thesis
    by (simp add: serve_connection_actions SEND_PROMPT_actions)
qed

lemma read_loop_pieces:
  "pieces \<noteq> [] \<Longrightarrow> [] \<notin> set pieces \<Longrightarrow> NUL \<notin> set (concat pieces) \<Longrightarrow>
   last (concat pieces) = newline \<Longrightarrow> newline \<notin> set (butlast (concat pieces)) \<Longrightarrow>
   length buf + length (concat pieces) < INT_MAX \<Longrightarrow>
   read_loop cx (pieces @ rest) buf st = read_loop cx rest [] (dispatch cx (buf @ concat pieces) st)"
proof (induction pieces arbitrary: buf)
  case Nil
  then show ?case by simp
next
  case (Cons p ps)
  from Cons.prems have p: "p \<noteq> []" "strncpy p (length p) = p"
    by (auto simp: strncpy_id)
  from Cons.prems(6) have fit: "\<not> INT_MAX < length buf + length p"
    by simp
  show ?case
  proof (cases "ps = []")
    case True
    with Cons.prems p show ?thesis by (simp add: Let_def)
  next
    case False
    define tl where "tl = concat ps"
    from Cons.prems False have ne: "tl \<noteq> []"
      unfolding tl_def by (cases ps) auto
    have whole: "concat (p # ps) = p @ tl"
      by (simp add: tl_def)
    from ne have bl: "butlast (p @ tl) = p @ butlast tl" and la: "last (p @ tl) = last tl"
      by (simp_all add: butlast_append)
    from Cons.prems(5) have nl: "newline \<notin> set (p @ butlast tl)"
      unfolding whole bl .
    moreover from p(1) have "last p \<in> set p"
      by (rule last_in_set)
    ultimately have lp: "last p \<noteq> newline"
      by auto
    from Cons.prems(4) have "last tl = newline"
      unfolding whole la .
    moreover from nl have "newline \<notin> set (butlast tl)" by simp
    moreover from Cons.prems(3) have "NUL \<notin> set tl"
      unfolding whole by simp
    moreover from Cons.prems(6) have "length (buf @ p) + length tl < INT_MAX"
      unfolding whole by simp
    ultimately have "read_loop cx (ps @ rest) (buf @ p) st =
        read_loop cx rest [] (dispatch cx ((buf @ p) @ concat ps) st)"
      using Cons.prems(2) False unfolding tl_def by (intro Cons.IH) simp_all
    with p lp fit show ?thesis by (simp add: Let_def)
  qed
qed

lemma frames_pending:
  "\<forall>p \<in> set pending. p \<noteq> [] \<longrightarrow> last (strncpy p (length p)) \<noteq> newline \<Longrightarrow>
   frames pending buf = []"
proof (induction pending arbitrary: buf)
  case Nil
  then show ?case by simp
next
  case (Cons p ps)
  show ?case
  proof (cases "p = []")
    case True
    then show ?thesis by simp
  next
    case False
    with Cons.prems have "last (buf @ strncpy p (length p)) \<noteq> newline"
      by (simp add: strncpy_not_Nil)
    with Cons False show ?thesis
      by (simp add: Let_def)
  qed
qed

lemma frames_append_pending:
  "\<forall>p \<in> set pending. p \<noteq> [] \<longrightarrow> last (strncpy p (length p)) \<noteq> newline \<Longrightarrow>
   frames (chunks @ pending) buf = frames chunks buf"
  by (induction chunks buf rule: frames.induct) (simp_all add: frames_pending Let_def)

lemma overflows_prefix:
  "overflows chunks buf \<Longrightarrow> overflows (chunks @ pending) buf"
  by (induction chunks buf rule: overflows.induct) (simp_all add: Let_def split: if_splits)

lemma serve_connection_served_from:
  "req st + 1 = r0 + of_nat n \<Longrightarrow>
   served (actions (trace (serve_connection cx chunks st))) =
     served (actions (trace st))
     @ concat (map (\<lambda>(k, f). [Executed (c_str f), Terminated (fmt_u (r0 + of_nat k))])
         (enumerate n (frames chunks [])))"
proof -
  assume r: "req st + 1 = r0 + of_nat n"
  let ?s = "SEND_PROMPT cx (st\<lparr>trace := trace st @ [Accept]\<rparr>)"
  from r have "req ?s + 1 = r0 + of_nat n" by simp
  from fold_dispatch_served [OF this] show ?thesis
    by (simp add: serve_connection_actions SEND_PROMPT_actions)
qed

lemma event_loop_served_from:
  "req st + 1 = r0 + of_nat n \<Longrightarrow>
   served (actions (trace (event_loop cx conns st))) =
     served (actions (trace st))
     @ concat (map (\<lambda>(k, f). [Executed (c_str f), Terminated (fmt_u (r0 + of_nat k))])
         (enumerate n (concat (map (\<lambda>chunks. frames chunks []) conns))))"
proof (induction conns arbitrary: st n)
  case Nil
  then show ?case by simp
next
  case (Cons chunks conns)
  have "req (serve_connection cx chunks st) + 1 = r0 + of_nat (n + length (frames chunks []))"
    using Cons.prems by simp
  from Cons.IH [OF this] serve_connection_served_from [OF Cons.prems, of cx chunks]
  show ?case
    by (simp add: enumerate_append_eq)
qed

subsection \<open>Prompts\<close>

lemma fold_dispatch_prompting:
  "prompting (actions (trace (fold (dispatch cx) fs st))) =
     prompting (actions (trace st))
     @ concat (map (\<lambda>f. Terminal # (if prompt cx then [Prompted] else [])) fs)"
  by (induction fs arbitrary: st) (simp_all add: dispatch_actions)

lemma count_prompts_data_messages [simp]: "count_list (data_messages r rows) (Sent ''> '') = 0"
proof -
  have "Sent ''> '' \<notin> set (data_messages r rows)"
  proof
    assume "Sent ''> '' \<in> set (data_messages r rows)"
    then obtain column argv where "''> '' = sprintf_message r DATA (sprintf_column column argv)"
      by (auto simp: data_messages_def)
    then show False
      using message_not_prompt [of r DATA "sprintf_column column argv"] by simp
  qed
  then show ?thesis
    by (simp add: count_list_0_iff)
qed

lemma count_prompts_request_actions [simp]:
  "count_list (request_actions p r sql result) (Sent ''> '') = (if p then 1 else 0)"
  by (simp add: request_actions_def split: prod.splits option.splits)

lemma fold_dispatch_count_prompts:
  "count_list (actions (trace (fold (dispatch cx) fs st))) (Sent ''> '') =
     count_list (actions (trace st)) (Sent ''> '') + (if prompt cx then length fs else 0)"
  by (induction fs arbitrary: st) (simp_all add: dispatch_actions)

subsection \<open>Terminal IDs; where a frame can end\<close>

lemma terminal_ids_append [simp]: "terminal_ids (xs @ ys) = terminal_ids xs @ terminal_ids ys"
  by (induction xs rule: terminal_ids.induct) simp_all

lemma strncpy_ends_with_newline:
  assumes "chunk \<noteq> []" and "last (strncpy chunk (length chunk)) = newline"
  shows "NUL \<notin> set chunk" and "last chunk = newline"
proof -
  let ?s = "c_str chunk"
  have le: "length ?s \<le> length chunk"
    by (simp add: c_str_def length_takeWhile_le)
  have copy: "strncpy chunk (length chunk) = ?s @ replicate (length chunk - length ?s) NUL"
    by (simp add: strncpy_def Let_def)
  have full: "length ?s = length chunk"
  proof (rule ccontr)
    assume "length ?s \<noteq> length chunk"
    with le have "replicate (length chunk - length ?s) NUL \<noteq> []"
      by simp
    then have "last (strncpy chunk (length chunk)) = NUL"
      unfolding copy by simp
    with assms(2) show False
      by (simp add: NUL_def newline_def)
  qed
  have split: "?s @ dropWhile (\<lambda>c. c \<noteq> NUL) chunk = chunk"
    unfolding c_str_def by simp
  then have "length ?s + length (dropWhile (\<lambda>c. c \<noteq> NUL) chunk) = length chunk"
    by (metis length_append)
  with full have "dropWhile (\<lambda>c. c \<noteq> NUL) chunk = []"
    by simp
  with split have "?s = chunk"
    by (metis append_Nil2)
  then have "\<forall>c \<in> set chunk. c \<noteq> NUL"
    unfolding c_str_def by (simp only: takeWhile_eq_all_conv)
  then show nul: "NUL \<notin> set chunk"
    by blast
  from assms(2) show "last chunk = newline"
    by (simp only: strncpy_id [OF nul])
qed

subsection \<open>The run of the process is the beginning of the trace\<close>

lemma process_trace_prefix: "\<exists>rest. tr = process_trace tr @ rest"
  by (induction tr) auto

lemma process_trace_id: "\<not> list_ex fatal tr \<Longrightarrow> process_trace tr = tr"
  by (induction tr) auto

subsection \<open>Frames that never come\<close>

lemma length_concat_replicate: "length (concat (replicate n xs)) = n * length xs"
  by (induction n) simp_all

lemma read_loop_plain_overflow:
  "\<forall>c \<in> set cs. c \<noteq> [] \<and> NUL \<notin> set c \<and> last c \<noteq> newline \<Longrightarrow>
   INT_MAX < length buf + length (concat cs) \<Longrightarrow> length buf \<le> INT_MAX \<Longrightarrow>
   snd (read_loop cx (cs @ rest) buf st) = out_of_memory st"
proof (induction cs arbitrary: buf)
  case Nil
  then show ?case by simp
next
  case (Cons c cs)
  from Cons.prems(1) have c: "c \<noteq> []" "strncpy c (length c) = c" "last c \<noteq> newline"
    by (simp_all add: strncpy_id)
  show ?case
  proof (cases "INT_MAX < length buf + length c")
    case True
    with c show ?thesis by simp
  next
    case False
    from Cons.prems(2) have "INT_MAX < length (buf @ c) + length (concat cs)"
      by simp
    with Cons.prems(1) False have "snd (read_loop cx (cs @ rest) (buf @ c) st) = out_of_memory st"
      by (intro Cons.IH) simp_all
    with c False show ?thesis
      by (simp add: Let_def)
  qed
qed

subsection \<open>A run of the model\<close>

lemmas run_defs = serve_connection_def dispatch_def sqlite3_exec_def transmit_def SEND_PROMPT_def
  sock_write_def dprintf_def out_of_memory_def INT_MAX_def hangup_def failing_def sprintf_message_def sprintf_column_def fmt_u_def fmt_d_def
  strncpy_def c_str_def NUL_def newline_def initial_def demo_def demo_engine_def Let_def
  decimal.simps digit_char_def

lemma demo_run:
  "trace (event_loop demo [[''q\<newline>'', ''bad\<newline>'']] (initial 0)) =
     [Accept,
      Write ''> '' (- 1),
      Print ''Received 2 character(s): q\<newline>'',
      Exec ''q\<newline>'',
      Write ''1: 1: n = 0\<newline>'' 12,
      Write ''1: 1: x = NULL\<newline>'' 15,
      Write ''1: 0: \<newline>'' 7,
      Write ''> '' (- 1),
      Print ''Received 4 character(s): bad\<newline>'',
      Exec ''bad\<newline>'',
      Print ''Failed to execute query 2: syntax error\<newline>'',
      Write ''2: -1: syntax error\<newline>'' 20,
      Free ''syntax error'',
      Write ''> '' (- 1),
      Print ''Client disconnected.\<newline>'',
      Close]"
  by (simp add: run_defs)

subsection \<open>Everything written is a response line or the prompt\<close>

lemma sent_request_actions:
  "Sent m \<in> set (request_actions p r sql result) \<Longrightarrow>
   m = ''> '' \<or> (\<exists>r code data. m = sprintf_message r code data \<and> (code = OK \<longrightarrow> data = []))"
  by (auto simp: request_actions_def data_messages_def split: prod.splits option.splits if_splits; blast)

lemma sent_fold_dispatch:
  "Sent m \<in> set (actions (trace (fold (dispatch cx) fs st))) \<Longrightarrow>
   Sent m \<in> set (actions (trace st)) \<or> m = ''> '' \<or> (\<exists>r code data. m = sprintf_message r code data \<and> (code = OK \<longrightarrow> data = []))"
proof (induction fs arbitrary: st)
  case Nil
  then show ?case by simp
next
  case (Cons f fs)
  from Cons.prems have "Sent m \<in> set (actions (trace (fold (dispatch cx) fs (dispatch cx f st))))"
    by simp
  from Cons.IH [OF this] show ?case
    by (auto simp: dispatch_actions dest: sent_request_actions)
qed

lemma sent_serve_connection:
  "Sent m \<in> set (actions (trace (serve_connection cx chunks st))) \<Longrightarrow>
   Sent m \<in> set (actions (trace st)) \<or> m = ''> '' \<or> (\<exists>r code data. m = sprintf_message r code data \<and> (code = OK \<longrightarrow> data = []))"
  by (auto simp: serve_connection_actions SEND_PROMPT_actions dest!: sent_fold_dispatch split: if_splits)

lemma sent_event_loop:
  "Sent m \<in> set (actions (trace (event_loop cx conns st))) \<Longrightarrow>
   Sent m \<in> set (actions (trace st)) \<or> m = ''> '' \<or> (\<exists>r code data. m = sprintf_message r code data \<and> (code = OK \<longrightarrow> data = []))"
proof (induction conns arbitrary: st)
  case Nil
  then show ?case by simp
next
  case (Cons chunks conns)
  from Cons.prems have "Sent m \<in> set (actions (trace (event_loop cx conns (serve_connection cx chunks st))))"
    by simp
  from Cons.IH [OF this] show ?case
    by (auto dest: sent_serve_connection)
qed

section \<open>The claims\<close>

text \<open>
  C2 (wire format). Every call of \<^verbatim>\<open>transmit\<close> hands exactly one message to the socket,
  and its bytes are the decimal request ID, a colon and a space, the decimal status code
  (0 for OK, -1 for ERR, 1 for DATA), a colon and a space, the payload as given, and one
  newline. Everything the server writes to a client in a run, from the start of the
  process, is such a line or the prompt, and the payload of an OK line is empty.
\<close>

theorem transmit_wire_format:
  "actions (trace (snd (transmit cx r code data st))) =
     actions (trace st) @
       [Sent (decimal (unat r) @ '': ''
                @ (case code of OK \<Rightarrow> ''0'' | ERR \<Rightarrow> ''-1'' | DATA \<Rightarrow> ''1'')
                @ '': '' @ data @ [CHR 0x0A])]
   \<and> (\<forall>m. Sent m \<in> set (actions (trace (event_loop cx conns (initial d)))) \<longrightarrow>
          m = ''> '' \<or>
          (\<exists>(r::u32) code data.
             m = decimal (unat r) @ '': ''
                   @ (case code of OK \<Rightarrow> ''0'' | ERR \<Rightarrow> ''-1'' | DATA \<Rightarrow> ''1'')
                   @ '': '' @ data @ [CHR 0x0A]
             \<and> (code = OK \<longrightarrow> data = [])))"
proof -
  have w: "sprintf_message r code data =
          decimal (unat r) @ '': ''
            @ (case code of OK \<Rightarrow> ''0'' | ERR \<Rightarrow> ''-1'' | DATA \<Rightarrow> ''1'')
            @ '': '' @ data @ [CHR 0x0A]" for r code data
    by (simp add: sprintf_message_def fmt_u_def fmt_d_response newline_def)
  have "m = ''> '' \<or>
          (\<exists>(r::u32) code data.
             m = decimal (unat r) @ '': ''
                   @ (case code of OK \<Rightarrow> ''0'' | ERR \<Rightarrow> ''-1'' | DATA \<Rightarrow> ''1'')
                   @ '': '' @ data @ [CHR 0x0A]
             \<and> (code = OK \<longrightarrow> data = []))"
    if "Sent m \<in> set (actions (trace (event_loop cx conns (initial d))))" for m
    using sent_event_loop [OF that] unfolding w by (simp add: initial_def)
  then show ?thesis
    by (simp add: transmit_actions w)
qed

text \<open>The ERR line of the run above.\<close>

theorem transmit_wire_format_witness:
  "Sent ''2: -1: syntax error\<newline>''
     \<in> set (actions (trace (event_loop demo [[''q\<newline>'', ''bad\<newline>'']] (initial 0))))
   \<and> (''2: -1: syntax error\<newline>'' = ''> '' \<or>
        (\<exists>(r::u32) code data.
           ''2: -1: syntax error\<newline>'' =
              decimal (unat r) @ '': ''
                @ (case code of OK \<Rightarrow> ''0'' | ERR \<Rightarrow> ''-1'' | DATA \<Rightarrow> ''1'')
                @ '': '' @ data @ [CHR 0x0A]
           \<and> (code = OK \<longrightarrow> data = [])))"
proof -
  have h: "Sent ''2: -1: syntax error\<newline>''
     \<in> set (actions (trace (event_loop demo [[''q\<newline>'', ''bad\<newline>'']] (initial 0))))"
    unfolding demo_run by simp
  from transmit_wire_format [of demo _ _ _ _ "[[''q\<newline>'', ''bad\<newline>'']]" 0] h
  show ?thesis
    by blast
qed

text \<open>
  C10 (buffer size in \<^verbatim>\<open>transmit\<close>). For every request ID, every status code and every
  payload, the formatted message together with its terminating NUL fits into the
  allocation: 10 bytes for the ID, 2 for the code, the two separators, the payload, and 2
  for the newline and the NUL.
\<close>

theorem transmit_allocation_suffices:
  "length (sprintf_message r code data) + 1 \<le> message_alloc data"
proof -
  have "length (fmt_d (response_value code)) \<le> 2"
    using fmt_d_response [of code] by (cases code) simp_all
  with fmt_u_length [of r] show ?thesis
    by (simp add: sprintf_message_def message_alloc_def)
qed




text \<open>
  C7 (request counter). The counter is a 32-bit unsigned value that starts at 0, is
  incremented with wrap-around before the request is executed, and is never reset: the
  messages of a request carry the incremented value, the first request of the process has
  ID 1, the request after 4294967295 has ID 0, and after any number of connections the
  counter has advanced by the number of requests executed in all of them.
\<close>

theorem request_counter:
  "req (dispatch cx buf st) = req st + 1
   \<and> unat (req (dispatch cx buf st)) = (unat (req st) + 1) mod 2 ^ 32
   \<and> actions (trace (dispatch cx buf st)) =
       actions (trace st)
       @ request_actions (prompt cx) (req st + 1) (c_str buf) (engine cx (db st) (c_str buf))
   \<and> req (initial d) = 0
   \<and> fmt_u (req (dispatch cx buf (initial d))) = ''1''
   \<and> fmt_u (req (st\<lparr>req := 4294967295\<rparr>)) = ''4294967295''
   \<and> fmt_u (req (dispatch cx buf (st\<lparr>req := 4294967295\<rparr>))) = ''0''
   \<and> req (event_loop cx conns st) =
       req st + of_nat (length (concat (map (\<lambda>chunks. frames chunks []) conns)))"
proof -
  have "unat (req st + 1) = (unat (req st) + 1) mod 2 ^ 32"
    by (simp add: unat_word_ariths)
  moreover have "decimal 4294967295 = ''4294967295''"
    by (simp add: decimal.simps digit_char_def)
  ultimately show ?thesis
    by (simp add: dispatch_actions event_loop_req initial_def fmt_u_def decimal.simps digit_char_def)
qed

text \<open>
  C1 (one terminal message per request). The code breaks the claim. Two requests that
  arrive in one read are executed as one query and answered by one terminal message, with
  one ID, because the loop looks for the newline at the end of the buffer only. The same
  bytes in two reads are two requests with two IDs, and a request followed by the
  beginning of the next one is not executed at all when the client then disconnects.
\<close>

theorem two_requests_in_one_read:
  "request_line ''a\<newline>'' \<and> request_line ''b\<newline>''
   \<and> concat [''a\<newline>'', ''b\<newline>''] = concat [''a\<newline>b\<newline>'']
   \<and> served (actions (trace (serve_connection demo [''a\<newline>b\<newline>''] (initial 0)))) =
       [Executed ''a\<newline>b\<newline>'', Terminated ''1'']
   \<and> terminal_ids (served (actions (trace (serve_connection demo [''a\<newline>b\<newline>''] (initial 0))))) =
       [''1'']
   \<and> length (terminal_ids (served (actions (trace (serve_connection demo [''a\<newline>b\<newline>''] (initial 0))))))
       \<noteq> length [''a\<newline>'', ''b\<newline>'']
   \<and> served (actions (trace (serve_connection demo [''a\<newline>'', ''b\<newline>''] (initial 0)))) =
       [Executed ''a\<newline>'', Terminated ''1'', Executed ''b\<newline>'', Terminated ''2'']
   \<and> served (actions (trace (serve_connection demo [''a\<newline>b''] (initial 0)))) = []
   \<and> process_trace (trace (serve_connection demo [''a\<newline>b\<newline>''] (initial 0))) =
       trace (serve_connection demo [''a\<newline>b\<newline>''] (initial 0))"
proof -
  have f: "frames [''a\<newline>b\<newline>''] [] = [''a\<newline>b\<newline>'']"
    "frames [''a\<newline>'', ''b\<newline>''] [] = [''a\<newline>'', ''b\<newline>'']"
    "frames [''a\<newline>b''] [] = []"
    by (simp_all add: strncpy_def c_str_def NUL_def newline_def INT_MAX_def Let_def)
  have s: "served (actions (trace (serve_connection demo [''a\<newline>b\<newline>''] (initial 0)))) =
       [Executed ''a\<newline>b\<newline>'', Terminated ''1'']"
    unfolding serve_connection_served f
    by (simp add: initial_def c_str_def NUL_def fmt_u_def decimal.simps digit_char_def)
  have s2: "served (actions (trace (serve_connection demo [''a\<newline>'', ''b\<newline>''] (initial 0)))) =
       [Executed ''a\<newline>'', Terminated ''1'', Executed ''b\<newline>'', Terminated ''2'']"
    unfolding serve_connection_served f
    by (simp add: initial_def c_str_def NUL_def fmt_u_def decimal.simps digit_char_def)
  have s3: "served (actions (trace (serve_connection demo [''a\<newline>b''] (initial 0)))) = []"
    unfolding serve_connection_served f
    by (simp add: initial_def)
  have p: "process_trace (trace (serve_connection demo [''a\<newline>b\<newline>''] (initial 0))) =
       trace (serve_connection demo [''a\<newline>b\<newline>''] (initial 0))"
    by (simp add: run_defs)
  have r: "request_line ''a\<newline>''" "request_line ''b\<newline>''"
    by (simp_all add: request_line_def newline_def NUL_def)
  from r s2 s3 p show ?thesis
    unfolding s by simp
qed




text \<open>
  C6 (disconnect in the middle of a frame). When a connection ends by a read that returns
  zero or less, the reads before it that did not complete a frame leave no trace: the
  connection executes the same requests, is closed, and leaves the same state as if those
  bytes had never been sent, so every later connection behaves the same too. The next
  connection starts from an empty accumulator (its frames are those of its own bytes),
  and the request counter goes on from where the previous connection left it.
\<close>

theorem pending_bytes_are_discarded:
  assumes "\<forall>p \<in> set pending. p \<noteq> [] \<longrightarrow> last (strncpy p (length p)) \<noteq> newline"
    and "\<not> overflows (chunks @ pending) []"
  shows "snd (read_loop cx (chunks @ pending) [] st) = snd (read_loop cx chunks [] st)
         \<and> serve_connection cx (chunks @ pending) st = serve_connection cx chunks st
         \<and> event_loop cx ((chunks @ pending) # conns) st = event_loop cx (chunks # conns) st
         \<and> last (trace (serve_connection cx (chunks @ pending) st)) = Close
         \<and> req (serve_connection cx (chunks @ pending) st) = req st + of_nat (length (frames chunks []))
         \<and> served (actions (trace (event_loop cx [chunks @ pending, next_chunks] st))) =
             served (actions (trace st))
             @ concat (map (\<lambda>(k, f). [Executed (c_str f), Terminated (fmt_u (req st + of_nat k))])
                 (enumerate 1 (frames chunks [] @ frames next_chunks [])))"
proof -
  from assms(1) have f: "frames (chunks @ pending) [] = frames chunks []"
    by (rule frames_append_pending)
  from assms(2) have o: "\<not> overflows chunks []"
    using overflows_prefix by blast
  from f o assms(2) have r: "snd (read_loop cx (chunks @ pending) [] s) = snd (read_loop cx chunks [] s)"
    for s
    by (simp add: read_loop_frames)
  then have s: "serve_connection cx (chunks @ pending) st = serve_connection cx chunks st"
    by (simp add: serve_connection_unfold)
  then have e: "event_loop cx ((chunks @ pending) # conns) st = event_loop cx (chunks # conns) st"
    by simp
  have "req st + 1 = req st + of_nat 1" by simp
  from event_loop_served_from [OF this, of cx "[chunks @ pending, next_chunks]"] f
  have "served (actions (trace (event_loop cx [chunks @ pending, next_chunks] st))) =
             served (actions (trace st))
             @ concat (map (\<lambda>(k, f). [Executed (c_str f), Terminated (fmt_u (req st + of_nat k))])
                 (enumerate 1 (frames chunks [] @ frames next_chunks [])))"
    by simp
  moreover have "last (trace (serve_connection cx (chunks @ pending) st)) = Close"
    by (simp add: serve_connection_unfold)
  ultimately show ?thesis
    using r [of st] s e f by simp
qed

text \<open>A connection that ends after the unfinished bytes \<open>drop\<close>, then a second one.\<close>

theorem pending_bytes_are_discarded_witness:
  "last (strncpy ''dro'' (length ''dro'')) \<noteq> newline
   \<and> last (strncpy ''p'' (length ''p'')) \<noteq> newline
   \<and> \<not> overflows ([''a\<newline>''] @ [''dro'', ''p'']) []
   \<and> serve_connection demo ([''a\<newline>''] @ [''dro'', ''p'']) (initial 0) = serve_connection demo [''a\<newline>''] (initial 0)
   \<and> served (actions (trace (event_loop demo [[''a\<newline>''] @ [''dro'', ''p''], [''b\<newline>'']] (initial 0)))) =
       [Executed ''a\<newline>'', Terminated ''1'', Executed ''b\<newline>'', Terminated ''2'']"
proof -
  have h: "\<forall>p \<in> set [''dro'', ''p'']. p \<noteq> [] \<longrightarrow> last (strncpy p (length p)) \<noteq> newline"
    by (simp add: strncpy_def c_str_def NUL_def newline_def)
  have h': "\<not> overflows ([''a\<newline>''] @ [''dro'', ''p'']) []"
    by (simp add: strncpy_def c_str_def NUL_def newline_def INT_MAX_def Let_def)
  note t = pending_bytes_are_discarded [OF h h', of demo "initial 0" "[]" "[''b\<newline>'']"]
  have f: "frames [''a\<newline>''] [] = [''a\<newline>'']" "frames [''b\<newline>''] [] = [''b\<newline>'']"
    by (simp_all add: strncpy_def c_str_def NUL_def newline_def INT_MAX_def Let_def)
  from t have a: "serve_connection demo ([''a\<newline>''] @ [''dro'', ''p'']) (initial 0) = serve_connection demo [''a\<newline>''] (initial 0)"
    by (elim conjE)
  from t have "served (actions (trace (event_loop demo [[''a\<newline>''] @ [''dro'', ''p''], [''b\<newline>'']] (initial 0)))) =
             served (actions (trace (initial (0::nat))))
             @ concat (map (\<lambda>(k, f). [Executed (c_str f), Terminated (fmt_u (req (initial (0::nat)) + of_nat k))])
                 (enumerate 1 (frames [''a\<newline>''] [] @ frames [''b\<newline>''] [])))"
    by (elim conjE)
  also have "\<dots> = [Executed ''a\<newline>'', Terminated ''1'', Executed ''b\<newline>'', Terminated ''2'']"
    unfolding f by (simp add: initial_def c_str_def NUL_def fmt_u_def decimal.simps digit_char_def)
  finally have b: "served (actions (trace (event_loop demo [[''a\<newline>''] @ [''dro'', ''p''], [''b\<newline>'']] (initial 0)))) =
       [Executed ''a\<newline>'', Terminated ''1'', Executed ''b\<newline>'', Terminated ''2'']" .
  from h have h1: "last (strncpy ''dro'' (length ''dro'')) \<noteq> newline"
    and h2: "last (strncpy ''p'' (length ''p'')) \<noteq> newline"
    by simp_all
  show ?thesis
    by (intro conjI h1 h2 h' a b)
qed

text \<open>
  C8 (failed writes). The code breaks the claim. When the client has closed the
  connection, the first write of a response raises SIGPIPE and the process ends there:
  the other columns of the row, the terminal message and the next request are never
  processed. Only a failure that \<^verbatim>\<open>write\<close> returns is survived: it is logged under
  \<^verbatim>\<open>verbose\<close> and the run goes on to the end of the connection.
\<close>

theorem write_to_closed_peer_ends_the_process:
  "process_trace (trace (event_loop hangup [[''q\<newline>'', ''bad\<newline>'']] (initial 0))) =
     [Accept,
      Print ''Received 2 character(s): q\<newline>'',
      Exec ''q\<newline>'',
      Write ''1: 1: n = 0\<newline>'' (- 1),
      Sigpipe]
   \<and> process_trace (trace (event_loop failing [[''q\<newline>'', ''bad\<newline>'']] (initial 0))) =
     [Accept,
      Print ''Received 2 character(s): q\<newline>'',
      Exec ''q\<newline>'',
      Write ''1: 1: n = 0\<newline>'' (- 1),
      Print ''Error writing to socket.\<newline>'',
      Write ''1: 1: x = NULL\<newline>'' (- 1),
      Print ''Error writing to socket.\<newline>'',
      Write ''1: 0: \<newline>'' (- 1),
      Print ''Error writing to socket.\<newline>'',
      Print ''Received 4 character(s): bad\<newline>'',
      Exec ''bad\<newline>'',
      Print ''Failed to execute query 2: syntax error\<newline>'',
      Write ''2: -1: syntax error\<newline>'' (- 1),
      Print ''Error writing to socket.\<newline>'',
      Free ''syntax error'',
      Print ''Client disconnected.\<newline>'',
      Close]"
  by (simp add: run_defs)


end
